theory Spec2Isabelle
  imports Main "HOL-Library.Word"
begin

section \<open>Data model of \<^verbatim>\<open>main.go\<close>\<close>

text \<open>
  The relay is modelled sequentially: the mutex \<^verbatim>\<open>mu\<close> of the router serialises the
  accesses to the registry, so each operation is a function from the state before to
  the state after. Go's \<^verbatim>\<open>int\<close> is modelled by \<open>int\<close>: the program only compares
  buffer sizes, it never computes with them, so no overflow can occur. A Go \<^verbatim>\<open>error\<close>
  is modelled by its message; \<^verbatim>\<open>nil\<close> is \<open>None\<close>.
\<close>

type_synonym byte = "8 word"

type_synonym error = string

record ComponentConfig =
  Type :: string
  Tag :: string
  ListenAddr :: string
  BufferSize :: int
  Timeout :: int
  ReplaceOldConns :: bool
  Forwarders :: "string list"
  QueueSize :: int
  ReconnectInterval :: int
  ConnectionCheckTime :: int
  Detour :: "string list"

text \<open>
  The top-level \<^verbatim>\<open>Config\<close> struct. Both structs have a field \<^verbatim>\<open>BufferSize\<close>;
  the two are written \<open>Config.BufferSize\<close> and \<open>ComponentConfig.BufferSize\<close>.
\<close>

record Config =
  BufferSize :: int
  Services :: "ComponentConfig list"

text \<open>
  Modelled from the spec: the declaration of the \<^verbatim>\<open>Packet\<close> struct is in a file that
  is not part of the sources at hand. \<^verbatim>\<open>main.go\<close> reads one field of it,
  \<^verbatim>\<open>srcTag\<close>; the other fields follow section 3 of the specification (payload,
  number of valid bytes, address of the peer).
\<close>

record Packet =
  payload :: "byte list"
  len :: int
  srcTag :: string
  peerAddr :: string

text \<open>
  The \<^verbatim>\<open>Component\<close> interface. Its implementations (listener and forwarder) do
  network input and output; the model takes each method as a function on a world state
  \<open>'w\<close> that returns the error value of the call and the world after it.
  \<^verbatim>\<open>GetTag\<close> has no effect and is a field. A call that panics or never returns is
  not a value of this type: the theorems below are about calls that return.
\<close>

record 'w Component =
  GetTag :: string
  Start :: "'w \<Rightarrow> error option \<times> 'w"
  Stop :: "'w \<Rightarrow> error option \<times> 'w"
  HandlePacket :: "Packet \<Rightarrow> 'w \<Rightarrow> error option \<times> 'w"

text \<open>
  \<^verbatim>\<open>sync.Pool\<close>: the items put into the pool and not yet taken out, and the
  function \<^verbatim>\<open>New\<close> that allocates. \<^verbatim>\<open>make([]byte, n)\<close> panics with
  \<^verbatim>\<open>makeslice: len out of range\<close> when \<open>n\<close> is negative or larger than the runtime's
  allocation limit \<^verbatim>\<open>maxAlloc\<close>.
\<close>

datatype panic = PanicMakesliceLenOutOfRange

record Pool =
  items :: "byte list list"
  New :: "unit \<Rightarrow> panic + byte list"

record 'w Router =
  components :: "string \<rightharpoonup> 'w Component"
  bufferPool :: Pool

text \<open>
  What an operation does that an observer can see: the lines it logs and the calls it
  makes on components and constructors, in the order in which they happen.
\<close>

datatype event =
    EvLog string
  | EvNewListenComponent ComponentConfig
  | EvNewForwardComponent ComponentConfig
  | EvRegister string
  | EvStart string
  | EvStop string
  | EvHandlePacket string Packet

section \<open>Log lines and error messages\<close>

text \<open>
  The format strings of \<^verbatim>\<open>log.Printf\<close>, \<^verbatim>\<open>log.Fatalf\<close> and \<^verbatim>\<open>fmt.Errorf\<close>,
  each with its arguments filled in (\<^verbatim>\<open>%s\<close> a string, \<^verbatim>\<open>%v\<close> and \<^verbatim>\<open>%w\<close> the
  message of an error).
\<close>

definition err_empty_tag :: error where
  "err_empty_tag = ''component has empty tag''"

definition err_already_registered :: "string \<Rightarrow> error" where
  "err_already_registered tag = ''component with tag '' @ tag @ '' already registered''"

definition log_route_missing :: "string \<Rightarrow> string" where
  "log_route_missing tag = ''Warning: trying to route to non-existing component: '' @ tag"

definition log_route_error :: "string \<Rightarrow> error \<Rightarrow> string" where
  "log_route_error tag err = ''Error routing to '' @ tag @ '': '' @ err"

definition log_starting :: "string \<Rightarrow> string" where
  "log_starting tag = ''Starting component: '' @ tag"

definition err_start_failed :: "string \<Rightarrow> error \<Rightarrow> error" where
  "err_start_failed tag err = ''failed to start component '' @ tag @ '': '' @ err"



definition log_unknown_type :: "string \<Rightarrow> string" where
  "log_unknown_type ty = ''Unknown component type: '' @ ty"

definition log_register_failed :: "string \<Rightarrow> error \<Rightarrow> string" where
  "log_register_failed tag err = ''Failed to register component '' @ tag @ '': '' @ err"

definition fatal_start_failed :: "error \<Rightarrow> string" where
  "fatal_start_failed err = ''Failed to start components: '' @ err"

section \<open>The buffer pool\<close>

text \<open>
  \<^verbatim>\<open>make([]byte, n)\<close>. The range check is the one of the runtime's \<^verbatim>\<open>makeslice\<close>:
  a negative length, and a length of more than \<^verbatim>\<open>maxAlloc\<close> bytes, panic. The limit
  is a constant of the Go runtime that depends on the platform (\<open>2 ^ 48\<close> on the 64-bit
  platforms of the release workflow), so it is an argument of the model. A length in
  range gives that many zero bytes: the model takes the machine to have the memory
  (without it the runtime ends the process with a fatal error, which is not a panic and
  returns nothing).
\<close>

definition make_bytes :: "nat \<Rightarrow> int \<Rightarrow> panic + byte list" where
  "make_bytes maxAlloc n =
     (if n < 0 \<or> int maxAlloc < n then Inl PanicMakesliceLenOutOfRange
      else Inr (replicate (nat n) 0))"

definition NewRouter :: "nat \<Rightarrow> Config \<Rightarrow> 'w Router" where
  "NewRouter maxAlloc config =
     \<lparr>components = Map.empty,
      bufferPool =
        \<lparr>items = [], New = (\<lambda>_. make_bytes maxAlloc (Config.BufferSize config))\<rparr>\<rparr>"

text \<open>
  \<^verbatim>\<open>Pool.Get\<close> takes an arbitrary item out of the pool, and may ignore the pool and
  treat it as empty; with nothing to return it calls \<^verbatim>\<open>New\<close>. The choice is an
  argument of the model: \<open>Some i\<close> takes the item at position \<open>i\<close>, \<open>None\<close> (or a
  position that does not exist) treats the pool as empty.
\<close>

definition pool_Get :: "Pool \<Rightarrow> nat option \<Rightarrow> panic + (byte list \<times> Pool)" where
  "pool_Get p choice =
     (case choice of
        Some i \<Rightarrow>
          if i < length (items p)
          then Inr (items p ! i, p\<lparr>items := take i (items p) @ drop (Suc i) (items p)\<rparr>)
          else (case New p () of Inl e \<Rightarrow> Inl e | Inr b \<Rightarrow> Inr (b, p))
      | None \<Rightarrow> (case New p () of Inl e \<Rightarrow> Inl e | Inr b \<Rightarrow> Inr (b, p)))"

definition pool_Put :: "Pool \<Rightarrow> byte list \<Rightarrow> Pool" where
  "pool_Put p buf = p\<lparr>items := buf # items p\<rparr>"

definition GetBuffer :: "'w Router \<Rightarrow> nat option \<Rightarrow> panic + (byte list \<times> 'w Router)" where
  "GetBuffer r choice =
     (case pool_Get (bufferPool r) choice of
        Inl e \<Rightarrow> Inl e
      | Inr (buf, p) \<Rightarrow> Inr (buf, r\<lparr>bufferPool := p\<rparr>))"

definition PutBuffer :: "'w Router \<Rightarrow> byte list \<Rightarrow> 'w Router" where
  "PutBuffer r buf = r\<lparr>bufferPool := pool_Put (bufferPool r) buf\<rparr>"

text \<open>
  A sequence of calls on the pool of one router: the buffers that its \<^verbatim>\<open>GetBuffer\<close>
  calls return, in order, and the router at the end. A panic ends the run; the buffers
  returned before it are kept.
\<close>

datatype pool_call = CallGetBuffer "nat option" | CallPutBuffer "byte list"

fun run_pool :: "'w Router \<Rightarrow> pool_call list \<Rightarrow> byte list list \<times> (panic + 'w Router)" where
  "run_pool r [] = ([], Inr r)"
| "run_pool r (CallPutBuffer buf # cs) = run_pool (PutBuffer r buf) cs"
| "run_pool r (CallGetBuffer choice # cs) =
     (case GetBuffer r choice of
        Inl e \<Rightarrow> ([], Inl e)
      | Inr (buf, r1) \<Rightarrow> (let (bufs, res) = run_pool r1 cs in (buf # bufs, res)))"

section \<open>The registry\<close>

definition Register :: "'w Router \<Rightarrow> 'w Component \<Rightarrow> error option \<times> 'w Router" where
  "Register r c =
     (let tag = GetTag c in
      if tag = [] then (Some err_empty_tag, r)
      else if components r tag \<noteq> None
      then (Some (err_already_registered tag), r)
      else (None, r\<lparr>components := (components r)(tag \<mapsto> c)\<rparr>))"

definition GetComponent :: "'w Router \<Rightarrow> string \<Rightarrow> 'w Component option" where
  "GetComponent r tag = components r tag"

section \<open>Routing\<close>

text \<open>
  The loop of \<^verbatim>\<open>Route\<close> over \<^verbatim>\<open>destTags\<close>. The registry is read at every
  iteration and is not changed by the loop.
\<close>

fun Route_loop :: "'w Router \<Rightarrow> Packet \<Rightarrow> string list \<Rightarrow> 'w \<Rightarrow> event list \<times> 'w" where
  "Route_loop r packet [] w = ([], w)"
| "Route_loop r packet (tag # destTags) w =
     (if tag = srcTag packet then Route_loop r packet destTags w
      else
        (case GetComponent r tag of
           None \<Rightarrow>
             (let (tr, w') = Route_loop r packet destTags w
              in (EvLog (log_route_missing tag) # tr, w'))
         | Some c \<Rightarrow>
             (let (res, w1) = HandlePacket c packet w;
                  logged = (case res of
                              None \<Rightarrow> []
                            | Some err \<Rightarrow> [EvLog (log_route_error tag err)]);
                  (tr, w') = Route_loop r packet destTags w1
              in (EvHandlePacket tag packet # logged @ tr, w'))))"

definition Route :: "'w Router \<Rightarrow> Packet \<Rightarrow> string list \<Rightarrow> 'w \<Rightarrow> error option \<times> event list \<times> 'w" where
  "Route r packet destTags w = (let (tr, w') = Route_loop r packet destTags w in (None, tr, w'))"

section \<open>Starting and stopping\<close>


fun StartAll :: "'w Router \<Rightarrow> string list \<Rightarrow> 'w \<Rightarrow> error option \<times> event list \<times> 'w" where
  "StartAll r [] w = (None, [], w)"
| "StartAll r (tag # order) w =
     (case components r tag of
        None \<Rightarrow> StartAll r order w
      | Some component \<Rightarrow>
          (case Start component w of
             (Some err, w1) \<Rightarrow>
               (Some (err_start_failed tag err),
                [EvLog (log_starting tag), EvStart tag], w1)
           | (None, w1) \<Rightarrow>
               (let (res, tr, w') = StartAll r order w1
                in (res, EvLog (log_starting tag) # EvStart tag # tr, w'))))"


section \<open>The main program\<close>

text \<open>
  \<^verbatim>\<open>main\<close> from the parsed configuration on (reading the file and parsing the JSON
  are outside the model). The constructors \<^verbatim>\<open>NewListenComponent\<close> and
  \<^verbatim>\<open>NewForwardComponent\<close> are defined in files that are not part of the sources at
  hand and are arguments of the model, as is the allocation limit of the runtime.
  The second argument of a constructor, the router, is what the component later calls
  \<^verbatim>\<open>Route\<close> and \<^verbatim>\<open>GetBuffer\<close> on; a component of the model acts on the world
  instead, so its constructor takes the configuration only.
  \<^verbatim>\<open>log.Fatalf\<close> ends the process with status 1; \<^verbatim>\<open>select {}\<close> blocks forever,
  and what the started components do from then on is not part of \<^verbatim>\<open>main\<close>.
\<close>

definition effective_config :: "Config \<Rightarrow> ComponentConfig \<Rightarrow> ComponentConfig" where
  "effective_config config cfg =
     (if ComponentConfig.BufferSize cfg \<le> 0
      then cfg\<lparr>ComponentConfig.BufferSize := Config.BufferSize config\<rparr>
      else cfg)"

text \<open>
  The \<^verbatim>\<open>switch\<close> on the type of a service: the component it constructs and the
  constructor call as an event, or \<open>None\<close> in the \<^verbatim>\<open>default\<close> case.
\<close>

definition new_component ::
  "(ComponentConfig \<Rightarrow> 'w Component) \<Rightarrow> (ComponentConfig \<Rightarrow> 'w Component) \<Rightarrow>
   ComponentConfig \<Rightarrow> ('w Component \<times> event) option" where
  "new_component NewListenComponent NewForwardComponent cfg =
     (if Type cfg = ''listen'' then Some (NewListenComponent cfg, EvNewListenComponent cfg)
      else if Type cfg = ''forward'' then Some (NewForwardComponent cfg, EvNewForwardComponent cfg)
      else None)"

fun main_loop ::
  "(ComponentConfig \<Rightarrow> 'w Component) \<Rightarrow> (ComponentConfig \<Rightarrow> 'w Component) \<Rightarrow>
   Config \<Rightarrow> ComponentConfig list \<Rightarrow> 'w Router \<Rightarrow> event list \<times> 'w Router" where
  "main_loop NewListenComponent NewForwardComponent config [] router = ([], router)"
| "main_loop NewListenComponent NewForwardComponent config (cfg0 # services) router =
     (let cfg = effective_config config cfg0 in
      case new_component NewListenComponent NewForwardComponent cfg of
        None \<Rightarrow>
          (let (tr, router') =
                 main_loop NewListenComponent NewForwardComponent config services router
           in (EvLog (log_unknown_type (Type cfg)) # tr, router'))
      | Some (component, made) \<Rightarrow>
          (let (res, router1) = Register router component;
               logged = (case res of
                           None \<Rightarrow> []
                         | Some err \<Rightarrow>
                             [EvLog (log_register_failed (Tag cfg) err)]);
               (tr, router') =
                 main_loop NewListenComponent NewForwardComponent config services router1
           in (made # EvRegister (GetTag component) # logged @ tr, router')))"

datatype outcome = Fatal string | WaitIndefinitely

definition main ::
  "nat \<Rightarrow> (ComponentConfig \<Rightarrow> 'w Component) \<Rightarrow> (ComponentConfig \<Rightarrow> 'w Component) \<Rightarrow>
   Config \<Rightarrow> string list \<Rightarrow> 'w \<Rightarrow> outcome \<times> event list \<times> 'w Router \<times> 'w" where
  "main maxAlloc NewListenComponent NewForwardComponent config order w =
     (let router0 = NewRouter maxAlloc config;
          (tr1, router) =
            main_loop NewListenComponent NewForwardComponent config (Services config) router0;
          (res, tr2, w') = StartAll router order w
      in (case res of
            Some err \<Rightarrow> (Fatal (fatal_start_failed err), tr1 @ tr2, router, w')
          | None \<Rightarrow> (WaitIndefinitely, tr1 @ tr2, router, w')))"

section \<open>Observations and invariants\<close>


fun started :: "event list \<Rightarrow> string list" where
  "started [] = []"
| "started (EvStart tag # es) = tag # started es"
| "started (e # es) = started es"


text \<open>The configurations handed to the two constructors, in order.\<close>

fun constructed :: "event list \<Rightarrow> ComponentConfig list" where
  "constructed [] = []"
| "constructed (EvNewListenComponent cfg # es) = cfg # constructed es"
| "constructed (EvNewForwardComponent cfg # es) = cfg # constructed es"
| "constructed (e # es) = constructed es"

text \<open>
  The invariant of the registry: it is finite, the empty tag is not a key, and every
  component is stored under its own tag. It holds for a new router and every call of
  \<^verbatim>\<open>Register\<close> keeps it.
\<close>

definition registry_inv :: "'w Router \<Rightarrow> bool" where
  "registry_inv r =
     (finite (dom (components r)) \<and> [] \<notin> dom (components r) \<and>
      (\<forall>t c. components r t = Some c \<longrightarrow> GetTag c = t))"

text \<open>A sequence of \<^verbatim>\<open>Register\<close> calls, whatever each of them returns.\<close>

fun register_all :: "'w Router \<Rightarrow> 'w Component list \<Rightarrow> 'w Router" where
  "register_all r [] = r"
| "register_all r (c # cs) = register_all (snd (Register r c)) cs"


text \<open>The buffers that a sequence of pool calls puts back, and the number of its takes.\<close>

fun put_buffers :: "pool_call list \<Rightarrow> byte list list" where
  "put_buffers [] = []"
| "put_buffers (CallPutBuffer buf # cs) = buf # put_buffers cs"
| "put_buffers (CallGetBuffer choice # cs) = put_buffers cs"


text \<open>
  The invariant of the pool for the limit \<open>m\<close>, the buffer size \<open>n\<close> and a set \<open>B\<close>
  of buffers: \<^verbatim>\<open>New\<close> is the allocation of \<open>n\<close> bytes, and every buffer in the pool is
  one of \<open>B\<close>.
\<close>

definition pool_inv :: "nat \<Rightarrow> int \<Rightarrow> byte list set \<Rightarrow> 'w Router \<Rightarrow> bool" where
  "pool_inv m n B r =
     (New (bufferPool r) () = make_bytes m n \<and> set (items (bufferPool r)) \<subseteq> B)"


definition known_type :: "ComponentConfig \<Rightarrow> bool" where
  "known_type cfg = (Type cfg = ''listen'' \<or> Type cfg = ''forward'')"

section \<open>Components and configurations for concrete runs\<close>

text \<open>
  A component that writes each call into the world (a journal of calls) and returns a
  fixed result from every method.
\<close>

definition recorder :: "string \<Rightarrow> error option \<Rightarrow> (string list) Component" where
  "recorder tag res =
     \<lparr>GetTag = tag,
      Start = (\<lambda>w. (res, w @ [''Start '' @ tag])),
      Stop = (\<lambda>w. (res, w @ [''Stop '' @ tag])),
      HandlePacket = (\<lambda>packet w. (res, w @ [''HandlePacket '' @ tag]))\<rparr>"

text \<open>The allocation limit of the runtime on the 64-bit platforms.\<close>

definition demo_maxAlloc :: nat where
  "demo_maxAlloc = 2 ^ 48"

definition demo_router :: "(string list) Router" where
  "demo_router =
     register_all (NewRouter demo_maxAlloc \<lparr>Config.BufferSize = 1500, Services = []\<rparr>)
       [recorder ''L'' None, recorder ''F'' (Some ''write failed''), recorder ''G'' None]"

definition demo_packet :: Packet where
  "demo_packet =
     \<lparr>payload = [112, 105, 110, 103], len = 4, srcTag = ''L'', peerAddr = ''127.0.0.1:40000''\<rparr>"

definition service :: "string \<Rightarrow> string \<Rightarrow> int \<Rightarrow> ComponentConfig" where
  "service ty tag n =
     \<lparr>Type = ty, Tag = tag, ListenAddr = [], ComponentConfig.BufferSize = n, Timeout = 0,
      ReplaceOldConns = False, Forwarders = [], QueueSize = 0, ReconnectInterval = 0,
      ConnectionCheckTime = 0, Detour = []\<rparr>"

text \<open>
  Constructors for concrete runs: the component takes the tag of its configuration;
  a listener whose buffer size is not positive fails to start, and so does a forwarder
  without upstream addresses.
\<close>

definition demo_listen :: "ComponentConfig \<Rightarrow> (string list) Component" where
  "demo_listen cfg =
     recorder (Tag cfg) (if ComponentConfig.BufferSize cfg \<le> 0 then Some ''no buffer'' else None)"

definition demo_forward :: "ComponentConfig \<Rightarrow> (string list) Component" where
  "demo_forward cfg =
     recorder (Tag cfg) (if Forwarders cfg = [] then Some ''no upstream'' else None)"

definition demo_config :: Config where
  "demo_config =
     \<lparr>Config.BufferSize = 1500,
      Services =
        [service ''listen'' ''L'' 0, service ''forward'' ''F'' 2048,
         service ''bogus'' ''B'' 0, service ''listen'' ''G'' (- 1)]\<rparr>"

text \<open>The router that \<^verbatim>\<open>main\<close> has built from \<open>demo_config\<close> when it calls \<^verbatim>\<open>StartAll\<close>.\<close>

definition demo_main_router :: "(string list) Router" where
  "demo_main_router =
     snd (main_loop demo_listen demo_forward demo_config (Services demo_config)
            (NewRouter demo_maxAlloc demo_config))"



text \<open>A configuration and a sequence of calls for a run of the pool.\<close>

definition demo_pool_config :: Config where
  "demo_pool_config = \<lparr>Config.BufferSize = 4, Services = []\<rparr>"

definition demo_pool_calls :: "pool_call list" where
  "demo_pool_calls =
     [CallGetBuffer None, CallPutBuffer [0, 0, 0, 0], CallPutBuffer [1, 2, 3, 4, 5],
      CallGetBuffer (Some 1), CallGetBuffer (Some 7), CallGetBuffer (Some 0)]"

section \<open>Auxiliary lemmas\<close>

subsection \<open>The components of the concrete runs\<close>

lemma GetTag_recorder [simp]: "GetTag (recorder tag res) = tag"
  by (simp add: recorder_def)

lemma HandlePacket_recorder [simp]:
  "HandlePacket (recorder tag res) packet w = (res, w @ [''HandlePacket '' @ tag])"
  by (simp add: recorder_def)

lemma Start_recorder [simp]: "Start (recorder tag res) w = (res, w @ [''Start '' @ tag])"
  by (simp add: recorder_def)

lemma Stop_recorder [simp]: "Stop (recorder tag res) w = (res, w @ [''Stop '' @ tag])"
  by (simp add: recorder_def)

lemma srcTag_demo_packet: "srcTag demo_packet = ''L''"
  by (simp add: demo_packet_def)

lemma Type_service: "Type (service ty tag n) = ty"
  by (simp add: service_def)

subsection \<open>Routing\<close>








subsection \<open>The registry\<close>

lemma fst_Register:
  "fst (Register r c) =
     (if GetTag c = [] then Some err_empty_tag
      else if GetTag c \<in> dom (components r) then Some (err_already_registered (GetTag c))
      else None)"
  by (auto simp: Register_def Let_def)

lemma snd_Register:
  "snd (Register r c) =
     (if GetTag c = [] \<or> GetTag c \<in> dom (components r) then r
      else r\<lparr>components := (components r)(GetTag c \<mapsto> c)\<rparr>)"
  by (auto simp: Register_def Let_def)

lemma registry_inv_NewRouter: "registry_inv (NewRouter maxAlloc config)"
  by (simp add: registry_inv_def NewRouter_def)

lemma registry_inv_Register: "registry_inv r \<Longrightarrow> registry_inv (snd (Register r c))"
  by (auto simp: registry_inv_def Register_def Let_def)

lemma registry_inv_register_all: "registry_inv r \<Longrightarrow> registry_inv (register_all r cs)"
  by (induction cs arbitrary: r) (simp_all add: registry_inv_Register)

lemma registry_inv_demo_router: "registry_inv demo_router"
  unfolding demo_router_def by (rule registry_inv_register_all) (rule registry_inv_NewRouter)

lemma components_demo_router:
  "components demo_router =
     [''L'' \<mapsto> recorder ''L'' None, ''F'' \<mapsto> recorder ''F'' (Some ''write failed''),
      ''G'' \<mapsto> recorder ''G'' None]"
  by (simp add: demo_router_def Register_def NewRouter_def Let_def)

lemma card_demo_router: "card (dom (components demo_router)) = 3"
  by (simp add: components_demo_router)


subsection \<open>Starting and stopping\<close>

lemma started_append: "started (xs @ ys) = started xs @ started ys"
  by (induction xs rule: started.induct) simp_all


lemma StartAll_append_ok:
  "StartAll r pre w = (None, tr1, w1) \<Longrightarrow>
   StartAll r (pre @ post) w =
     (fst (StartAll r post w1), tr1 @ fst (snd (StartAll r post w1)), snd (snd (StartAll r post w1)))"
proof (induction pre arbitrary: w tr1)
  case Nil
  then show ?case by simp
next
  case (Cons tag pre)
  show ?case
  proof (cases "components r tag")
    case None
    with Cons show ?thesis by simp
  next
    case (Some c)
    obtain res w0 where st: "Start c w = (res, w0)"
      by (cases "Start c w")
    show ?thesis
    proof (cases res)
      case None
      obtain res' tr' w' where rest: "StartAll r pre w0 = (res', tr', w')"
        by (cases "StartAll r pre w0")
      with Cons.prems Some st None have "res' = None" "tr1 = EvLog (log_starting tag) # EvStart tag # tr'" "w1 = w'"
        by simp_all
      with Cons.IH [of w0 tr'] rest Some st None show ?thesis
        by simp
    next
      case (Some err)
      with Cons.prems \<open>components r tag = Some c\<close> st show ?thesis by simp
    qed
  qed
qed

lemma StartAll_fail_here:
  "components r tag = Some c \<Longrightarrow> Start c w1 = (Some err, w2) \<Longrightarrow>
   StartAll r (tag # post) w1 =
     (Some (err_start_failed tag err), [EvLog (log_starting tag), EvStart tag], w2)"
  by simp

lemma StartAll_fails_at:
  assumes "StartAll r pre w = (None, tr1, w1)" and "components r tag = Some c"
    and "Start c w1 = (Some err, w2)"
  shows "StartAll r (pre @ tag # post) w =
           (Some (err_start_failed tag err), tr1 @ [EvLog (log_starting tag), EvStart tag], w2)"
  using StartAll_append_ok [OF assms(1), of "tag # post"] StartAll_fail_here [OF assms(2,3), of post]
  by simp

lemma started_StartAll_subset: "set (started (fst (snd (StartAll r order w)))) \<subseteq> set order"
  by (induction order arbitrary: w)
     (auto simp: case_prod_beta split: option.splits prod.splits)

lemma started_pre_subset:
  "StartAll r pre w = (res, tr1, w1) \<Longrightarrow> set (started tr1) \<subseteq> set pre"
  using started_StartAll_subset [of r pre w] by simp




lemma constructed_StartAll: "constructed (fst (snd (StartAll r order w))) = []"
  by (induction order arbitrary: w)
     (auto simp: case_prod_beta split: option.splits prod.splits)





subsection \<open>The main program\<close>

lemma constructed_append: "constructed (xs @ ys) = constructed xs @ constructed ys"
  by (induction xs rule: constructed.induct) simp_all

lemma Type_effective_config [simp]: "Type (effective_config config cfg) = Type cfg"
  by (simp add: effective_config_def)

lemma effective_config_Services [simp]:
  "effective_config (config\<lparr>Services := s\<rparr>) cfg = effective_config config cfg"
  by (simp add: effective_config_def)

lemma NewRouter_Services [simp]: "NewRouter maxAlloc (config\<lparr>Services := s\<rparr>) = NewRouter maxAlloc config"
  by (simp add: NewRouter_def)

lemma main_loop_append:
  "main_loop NL NF config (pre @ post) router =
     (fst (main_loop NL NF config pre router) @
        fst (main_loop NL NF config post (snd (main_loop NL NF config pre router))),
      snd (main_loop NL NF config post (snd (main_loop NL NF config pre router))))"
  by (induction pre arbitrary: router)
     (simp_all add: Let_def case_prod_beta split: option.splits)

lemma main_loop_Services [simp]:
  "main_loop NL NF (config\<lparr>Services := s\<rparr>) services router =
     main_loop NL NF config services router"
  by (induction services arbitrary: router)
     (simp_all add: Let_def case_prod_beta split: option.splits)

lemma constructed_main_loop:
  "constructed (fst (main_loop NL NF config services router)) =
     map (effective_config config) (filter known_type services)"
proof (induction services arbitrary: router)
  case Nil
  then show ?case by simp
next
  case (Cons cfg services)
  show ?case
  proof (cases "known_type cfg")
    case True
    then have "known_type (effective_config config cfg)"
      by (simp add: known_type_def)
    then obtain component made where
      nc: "new_component NL NF (effective_config config cfg) = Some (component, made)"
        and made: "constructed [made] = [effective_config config cfg]"
      by (auto simp: new_component_def known_type_def split: if_splits)
    from made have "\<And>es. constructed (made # es) = effective_config config cfg # constructed es"
      by (cases made) simp_all
    with nc True Cons.IH show ?thesis
      by (simp add: Let_def case_prod_beta constructed_append split: option.splits)
  next
    case False
    then have "new_component NL NF (effective_config config cfg) = None"
      by (simp add: new_component_def known_type_def)
    with False Cons.IH show ?thesis
      by (simp add: Let_def case_prod_beta)
  qed
qed

lemma fst_main:
  "fst (main maxAlloc NL NF config order w) =
     (case fst (StartAll (snd (main_loop NL NF config (Services config) (NewRouter maxAlloc config))) order w) of
        Some err \<Rightarrow> Fatal (fatal_start_failed err)
      | None \<Rightarrow> WaitIndefinitely)"
  by (simp add: main_def Let_def case_prod_beta split: option.splits)

lemma trace_main:
  "fst (snd (main maxAlloc NL NF config order w)) =
     fst (main_loop NL NF config (Services config) (NewRouter maxAlloc config)) @
     fst (snd (StartAll (snd (main_loop NL NF config (Services config) (NewRouter maxAlloc config))) order w))"
  by (simp add: main_def Let_def case_prod_beta split: option.splits)

lemma router_main:
  "fst (snd (snd (main maxAlloc NL NF config order w))) =
     snd (main_loop NL NF config (Services config) (NewRouter maxAlloc config))"
  by (simp add: main_def Let_def case_prod_beta split: option.splits)


lemma components_demo_main_router:
  "components demo_main_router =
     [''L'' \<mapsto> recorder ''L'' None, ''F'' \<mapsto> recorder ''F'' (Some ''no upstream''),
      ''G'' \<mapsto> recorder ''G'' None]"
  by (simp add: demo_main_router_def demo_config_def service_def effective_config_def
      new_component_def demo_listen_def demo_forward_def Register_def NewRouter_def Let_def)

lemma StartAll_demo_pre:
  "StartAll demo_main_router [''L''] [] =
     (None, [EvLog (log_starting ''L''), EvStart ''L''], [''Start L''])"
  by (simp add: components_demo_main_router)




lemma dom_Register_mono: "dom (components r) \<subseteq> dom (components (snd (Register r c)))"
  by (auto simp: snd_Register)

lemma Register_in_dom:
  "GetTag c \<noteq> [] \<Longrightarrow> GetTag c \<in> dom (components (snd (Register r c)))"
  by (auto simp: snd_Register)

lemma main_loop_dom_mono:
  "dom (components router) \<subseteq> dom (components (snd (main_loop NL NF config services router)))"
proof (induction services arbitrary: router)
  case Nil
  then show ?case by simp
next
  case (Cons cfg services)
  show ?case
  proof (cases "new_component NL NF (effective_config config cfg)")
    case None
    with Cons.IH [of router] show ?thesis
      by (simp add: Let_def case_prod_beta)
  next
    case (Some cm)
    with Cons.IH [of "snd (Register router (fst cm))"] dom_Register_mono [of router "fst cm"]
    show ?thesis
      by (auto simp: Let_def case_prod_beta)
  qed
qed

lemma main_loop_processes:
  "cfg \<in> set services \<Longrightarrow>
   new_component NL NF (effective_config config cfg) = Some (c, made) \<Longrightarrow>
   made \<in> set (fst (main_loop NL NF config services router)) \<and>
   EvRegister (GetTag c) \<in> set (fst (main_loop NL NF config services router)) \<and>
   (GetTag c \<noteq> [] \<longrightarrow>
      GetTag c \<in> dom (components (snd (main_loop NL NF config services router))))"
proof (induction services arbitrary: router)
  case Nil
  then show ?case by simp
next
  case (Cons cfg0 services)
  show ?case
  proof (cases "cfg = cfg0")
    case True
    have "GetTag c \<noteq> [] \<longrightarrow>
        GetTag c \<in> dom (components (snd (main_loop NL NF config services
          (snd (Register router c)))))"
      using Register_in_dom [of c router]
        main_loop_dom_mono [of "snd (Register router c)" NL NF config services]
      by blast
    with True Cons.prems(2) show ?thesis
      by (simp add: Let_def case_prod_beta)
  next
    case False
    with Cons.prems(1) have "cfg \<in> set services"
      by simp
    note ih = Cons.IH [OF this Cons.prems(2)]
    show ?thesis
    proof (cases "new_component NL NF (effective_config config cfg0)")
      case None
      with ih [of router] show ?thesis
        by (simp add: Let_def case_prod_beta)
    next
      case (Some cm)
      with ih [of "snd (Register router (fst cm))"] show ?thesis
        by (simp add: Let_def case_prod_beta)
    qed
  qed
qed



subsection \<open>The buffer pool\<close>

lemma make_bytes_Inr:
  "make_bytes m n = Inr b \<longleftrightarrow> 0 \<le> n \<and> n \<le> int m \<and> b = replicate (nat n) 0"
  by (auto simp: make_bytes_def)

lemma make_bytes_in_range:
  "0 \<le> n \<Longrightarrow> n \<le> int m \<Longrightarrow> make_bytes m n = Inr (replicate (nat n) 0)"
  by (simp add: make_bytes_def)

lemma pool_inv_NewRouter: "pool_inv m (Config.BufferSize config) {} (NewRouter m config)"
  by (simp add: pool_inv_def NewRouter_def)

lemma pool_inv_PutBuffer:
  "pool_inv m n B r \<Longrightarrow> pool_inv m n (insert buf B) (PutBuffer r buf)"
  by (auto simp: pool_inv_def PutBuffer_def pool_Put_def)

lemma GetBuffer_Inr:
  assumes "pool_inv m n B r" and "GetBuffer r choice = Inr (buf, r1)"
  shows "(int (length buf) = n \<or> buf \<in> B) \<and> pool_inv m n B r1"
proof (cases "\<exists>i. choice = Some i \<and> i < length (items (bufferPool r))")
  case True
  then obtain i where i: "choice = Some i" "i < length (items (bufferPool r))"
    by blast
  with assms(2) have buf: "buf = items (bufferPool r) ! i"
    and r1: "r1 = r\<lparr>bufferPool := (bufferPool r)\<lparr>items :=
      take i (items (bufferPool r)) @ drop (Suc i) (items (bufferPool r))\<rparr>\<rparr>"
    by (simp_all add: GetBuffer_def pool_Get_def)
  from i(2) buf have "buf \<in> set (items (bufferPool r))"
    by simp
  with assms(1) have "buf \<in> B"
    by (auto simp: pool_inv_def)
  moreover have "set (take i (items (bufferPool r)) @ drop (Suc i) (items (bufferPool r)))
      \<subseteq> set (items (bufferPool r))"
    using set_take_subset set_drop_subset by fastforce
  with assms(1) r1 have "pool_inv m n B r1"
    by (auto simp: pool_inv_def)
  ultimately show ?thesis
    by simp
next
  case False
  with assms(2) have "New (bufferPool r) () = Inr buf" and "r1 = r"
    by (cases choice; auto simp: GetBuffer_def pool_Get_def split: sum.splits)+
  with assms(1) have "make_bytes m n = Inr buf" and "pool_inv m n B r1"
    by (simp_all add: pool_inv_def)
  then show ?thesis
    by (simp add: make_bytes_Inr)
qed



lemma run_pool_buffers:
  "pool_inv m n B r \<Longrightarrow>
   (\<forall>buf \<in> set (fst (run_pool r calls)).
      int (length buf) = n \<or> buf \<in> B \<union> set (put_buffers calls)) \<and>
   (\<forall>r'. snd (run_pool r calls) = Inr r' \<longrightarrow> pool_inv m n (B \<union> set (put_buffers calls)) r')"
proof (induction r calls arbitrary: B rule: run_pool.induct)
  case (1 r)
  then show ?case by simp
next
  case (2 r buf cs)
  from "2.IH" [OF pool_inv_PutBuffer [OF "2.prems"]] show ?case
    by simp
next
  case (3 r choice cs)
  show ?case
  proof (cases "GetBuffer r choice")
    case (Inl e)
    then show ?thesis by simp
  next
    case (Inr p)
    obtain buf r1 where p: "p = (buf, r1)"
      by (cases p)
    from GetBuffer_Inr [OF "3.prems" Inr [unfolded p]]
    have b: "int (length buf) = n \<or> buf \<in> B" and inv: "pool_inv m n B r1"
      by simp_all
    from "3.IH" [OF Inr [unfolded p] refl inv] b Inr p show ?thesis
      by (auto simp: case_prod_beta)
  qed
qed



lemma replicate_4_bytes: "replicate (nat 4) (0 :: byte) = [0, 0, 0, 0]"
  by (simp add: numeral_eq_Suc)

lemma make_bytes_demo_4: "make_bytes demo_maxAlloc 4 = Inr [0, 0, 0, 0]"
proof -
  have "(4 :: int) \<le> int demo_maxAlloc"
    by (simp add: demo_maxAlloc_def)
  then have "make_bytes demo_maxAlloc 4 = Inr (replicate (nat 4) 0)"
    by (simp add: make_bytes_in_range)
  then show ?thesis
    by (simp only: replicate_4_bytes)
qed



lemma run_demo_pool:
  "run_pool (NewRouter demo_maxAlloc demo_pool_config :: unit Router) demo_pool_calls =
     ([[0, 0, 0, 0], [0, 0, 0, 0], [0, 0, 0, 0], [1, 2, 3, 4, 5]],
      Inr (NewRouter demo_maxAlloc demo_pool_config))"
  by (simp add: demo_pool_config_def demo_pool_calls_def NewRouter_def
      GetBuffer_def PutBuffer_def pool_Get_def pool_Put_def make_bytes_demo_4 numeral_eq_Suc)


lemma bufferPool_Register: "bufferPool (snd (Register r c)) = bufferPool r"
  by (simp add: snd_Register)

lemma bufferPool_main_loop:
  "bufferPool (snd (main_loop NL NF config services router)) = bufferPool router"
  by (induction services arbitrary: router)
     (simp_all add: Let_def case_prod_beta bufferPool_Register split: option.splits)

lemma GetBuffer_NewRouter:
  "GetBuffer (NewRouter maxAlloc config) choice =
     (if Config.BufferSize config < 0 \<or> int maxAlloc < Config.BufferSize config
      then Inl PanicMakesliceLenOutOfRange
      else Inr (replicate (nat (Config.BufferSize config)) 0, NewRouter maxAlloc config))"
  by (cases choice) (simp_all add: NewRouter_def GetBuffer_def pool_Get_def make_bytes_def)

lemma make_bytes_demo_3: "make_bytes demo_maxAlloc 3 = Inr [0, 0, 0]"
proof -
  have "(3 :: int) \<le> int demo_maxAlloc"
    by (simp add: demo_maxAlloc_def)
  then have "make_bytes demo_maxAlloc 3 = Inr (replicate (nat 3) 0)"
    by (simp add: make_bytes_in_range)
  moreover have "replicate (nat 3) (0 :: byte) = [0, 0, 0]"
    by (simp add: numeral_eq_Suc)
  ultimately show ?thesis
    by simp
qed


subsection \<open>The components that the main program registers\<close>

lemma components_Register_cases:
  "components (snd (Register r c)) t = Some c' \<Longrightarrow> components r t = Some c' \<or> c' = c"
  by (auto simp: snd_Register split: if_splits)

lemma components_Register_keeps:
  "components r t = Some c' \<Longrightarrow> components (snd (Register r c)) t = Some c'"
  by (auto simp: snd_Register)

lemma components_Register_ok:
  "fst (Register r c) = None \<Longrightarrow> components (snd (Register r c)) (GetTag c) = Some c"
  by (auto simp: fst_Register snd_Register split: if_splits)

lemma main_loop_Cons_Some:
  "new_component NL NF (effective_config config cfg) = Some (c, made) \<Longrightarrow>
   main_loop NL NF config (cfg # services) router =
     (made # EvRegister (GetTag c) #
        (case fst (Register router c) of
           None \<Rightarrow> []
         | Some err \<Rightarrow> [EvLog (log_register_failed (Tag (effective_config config cfg)) err)]) @
        fst (main_loop NL NF config services (snd (Register router c))),
      snd (main_loop NL NF config services (snd (Register router c))))"
  by (simp add: Let_def case_prod_beta)

lemma new_component_listen:
  "Type cfg = ''listen'' \<Longrightarrow>
   new_component NL NF (effective_config config cfg) =
     Some (NL (effective_config config cfg), EvNewListenComponent (effective_config config cfg))"
  by (simp add: new_component_def)

lemma new_component_forward:
  "Type cfg \<noteq> ''listen'' \<Longrightarrow> Type cfg = ''forward'' \<Longrightarrow>
   new_component NL NF (effective_config config cfg) =
     Some (NF (effective_config config cfg), EvNewForwardComponent (effective_config config cfg))"
  by (simp add: new_component_def)

lemma main_loop_keeps:
  "components router t = Some c \<Longrightarrow>
   components (snd (main_loop NL NF config services router)) t = Some c"
proof (induction services arbitrary: router)
  case Nil
  then show ?case by simp
next
  case (Cons cfg services)
  show ?case
  proof (cases "new_component NL NF (effective_config config cfg)")
    case None
    with Cons show ?thesis
      by (simp add: Let_def case_prod_beta)
  next
    case (Some cm)
    from Cons.IH [OF components_Register_keeps [OF Cons.prems, of "fst cm"]] Some show ?thesis
      by (simp add: Let_def case_prod_beta)
  qed
qed

lemma main_loop_origin:
  "components (snd (main_loop NL NF config services router)) t = Some c \<Longrightarrow>
   components router t = Some c \<or>
   (\<exists>cfg \<in> set services.
      Type cfg = ''listen'' \<and> c = NL (effective_config config cfg) \<or>
      Type cfg \<noteq> ''listen'' \<and> Type cfg = ''forward'' \<and> c = NF (effective_config config cfg))"
proof (induction services arbitrary: router)
  case Nil
  then show ?case by simp
next
  case (Cons cfg services)
  show ?case
  proof (cases "new_component NL NF (effective_config config cfg)")
    case None
    with Cons.prems have "components (snd (main_loop NL NF config services router)) t = Some c"
      by (simp add: Let_def case_prod_beta)
    from Cons.IH [OF this] show ?thesis
      by auto
  next
    case (Some cm)
    then have cm: "Type cfg = ''listen'' \<and> fst cm = NL (effective_config config cfg) \<or>
        Type cfg \<noteq> ''listen'' \<and> Type cfg = ''forward'' \<and> fst cm = NF (effective_config config cfg)"
      by (auto simp: new_component_def split: if_splits)
    from Cons.prems Some
    have "components (snd (main_loop NL NF config services (snd (Register router (fst cm))))) t =
        Some c"
      by (simp add: Let_def case_prod_beta)
    from Cons.IH [OF this] have "components (snd (Register router (fst cm))) t = Some c \<or>
        (\<exists>cfg \<in> set services.
          Type cfg = ''listen'' \<and> c = NL (effective_config config cfg) \<or>
          Type cfg \<noteq> ''listen'' \<and> Type cfg = ''forward'' \<and> c = NF (effective_config config cfg))" .
    then show ?thesis
    proof
      assume "components (snd (Register router (fst cm))) t = Some c"
      from components_Register_cases [OF this] cm show ?thesis
        by auto
    next
      assume "\<exists>cfg \<in> set services.
          Type cfg = ''listen'' \<and> c = NL (effective_config config cfg) \<or>
          Type cfg \<noteq> ''listen'' \<and> Type cfg = ''forward'' \<and> c = NF (effective_config config cfg)"
      then show ?thesis
        by auto
    qed
  qed
qed

lemma main_loop_registered:
  assumes "new_component NL NF (effective_config config cfg) = Some (c, made)"
    and "fst (Register (snd (main_loop NL NF config pre router)) c) = None"
  shows "components (snd (main_loop NL NF config (pre @ cfg # post) router)) (GetTag c) = Some c"
proof -
  let ?r1 = "snd (main_loop NL NF config pre router)"
  have "snd (main_loop NL NF config (pre @ cfg # post) router) =
      snd (main_loop NL NF config post (snd (Register ?r1 c)))"
    by (simp add: main_loop_append [of NL NF config pre "cfg # post"] main_loop_Cons_Some [OF assms(1)]
        del: main_loop.simps)
  with main_loop_keeps [OF components_Register_ok [OF assms(2)], of NL NF config post]
  show ?thesis
    by simp
qed

lemma effective_config_service:
  "effective_config demo_config (service ty tag n) =
     service ty tag (if n \<le> 0 then 1500 else n)"
  by (simp add: effective_config_def service_def demo_config_def)

lemma Tag_service: "Tag (service ty tag n) = tag"
  by (simp add: service_def)

lemma GetTag_demo_listen: "GetTag (demo_listen cfg) = Tag cfg"
  by (simp add: demo_listen_def)


subsection \<open>The run of the main program\<close>















section \<open>Routing never returns a packet to its source\<close>



section \<open>Routing goes on after a failure\<close>



section \<open>The result of routing\<close>

text \<open>
  Claim C9. \<^verbatim>\<open>Route\<close> returns \<^verbatim>\<open>nil\<close> for every registry, packet, list of
  destination tags and world: a tag that is not registered and an error returned by
  \<^verbatim>\<open>HandlePacket\<close> are logged, and neither reaches the caller.
\<close>

theorem Route_returns_nil: "fst (Route r packet destTags w) = None"
  by (simp add: Route_def case_prod_beta)


text \<open>
  A run in which \<open>X\<close> is not registered and \<open>F\<close> returns an error: both are logged,
  and the result is \<^verbatim>\<open>nil\<close>.
\<close>

theorem Route_returns_nil_witness:
  "fst (Route demo_router demo_packet [''X'', ''F'', ''G''] []) = None \<and>
   fst (snd (Route demo_router demo_packet [''X'', ''F'', ''G''] [])) =
     [EvLog (log_route_missing ''X''), EvHandlePacket ''F'' demo_packet,
      EvLog (log_route_error ''F'' ''write failed''), EvHandlePacket ''G'' demo_packet]"
proof -
  have "fst (snd (Route demo_router demo_packet [''X'', ''F'', ''G''] [])) =
     [EvLog (log_route_missing ''X''), EvHandlePacket ''F'' demo_packet,
      EvLog (log_route_error ''F'' ''write failed''), EvHandlePacket ''G'' demo_packet]"
    by (simp add: Route_def GetComponent_def components_demo_router srcTag_demo_packet)
  with Route_returns_nil [of demo_router demo_packet "[''X'', ''F'', ''G'']" "[]"]
  show ?thesis
    by simp
qed

section \<open>Registration\<close>

text \<open>
  Claim C3. For every router and every component, \<^verbatim>\<open>Register\<close> returns an error
  exactly when the tag of the component is empty or is already a key of the registry
  (the empty-tag error in the first case, the already-registered error in the second).
  On success the component is stored under its tag, nothing else changes, and the
  (finite) registry has one more entry. On failure the router is unchanged, so the
  component registered before under that tag stays. \<^verbatim>\<open>Register\<close> keeps the invariant of
  the registry, under which components stored under different keys have different
  tags; the invariant holds for every registry that a sequence of \<^verbatim>\<open>Register\<close> calls
  builds from a new router, so no two registered components ever share a tag.
\<close>

theorem Register_spec:
  "fst (Register r c) =
     (if GetTag c = [] then Some err_empty_tag
      else if GetTag c \<in> dom (components r) then Some (err_already_registered (GetTag c))
      else None) \<and>
   (fst (Register r c) \<noteq> None \<longleftrightarrow> GetTag c = [] \<or> GetTag c \<in> dom (components r)) \<and>
   (fst (Register r c) = None \<longrightarrow>
      components (snd (Register r c)) = (components r)(GetTag c \<mapsto> c) \<and>
      bufferPool (snd (Register r c)) = bufferPool r \<and>
      (finite (dom (components r)) \<longrightarrow>
         card (dom (components (snd (Register r c)))) = card (dom (components r)) + 1)) \<and>
   (fst (Register r c) \<noteq> None \<longrightarrow> snd (Register r c) = r) \<and>
   (registry_inv r \<longrightarrow>
      registry_inv (snd (Register r c)) \<and>
      (\<forall>t1 t2 c1 c2.
         components (snd (Register r c)) t1 = Some c1 \<and>
         components (snd (Register r c)) t2 = Some c2 \<and> t1 \<noteq> t2 \<longrightarrow>
         GetTag c1 \<noteq> GetTag c2)) \<and>
   registry_inv (register_all (NewRouter maxAlloc config) cs :: 'w Router)"
proof -
  have reach: "registry_inv (register_all (NewRouter maxAlloc config) cs :: 'w Router)"
    by (rule registry_inv_register_all) (rule registry_inv_NewRouter)
  have inv: "registry_inv r \<longrightarrow>
      registry_inv (snd (Register r c)) \<and>
      (\<forall>t1 t2 c1 c2.
         components (snd (Register r c)) t1 = Some c1 \<and>
         components (snd (Register r c)) t2 = Some c2 \<and> t1 \<noteq> t2 \<longrightarrow>
         GetTag c1 \<noteq> GetTag c2)"
  proof
    assume "registry_inv r"
    then have i: "registry_inv (snd (Register r c))"
      by (rule registry_inv_Register)
    then have "\<forall>t1 t2 c1 c2.
         components (snd (Register r c)) t1 = Some c1 \<and>
         components (snd (Register r c)) t2 = Some c2 \<and> t1 \<noteq> t2 \<longrightarrow>
         GetTag c1 \<noteq> GetTag c2"
      unfolding registry_inv_def by metis
    with i show "registry_inv (snd (Register r c)) \<and>
      (\<forall>t1 t2 c1 c2.
         components (snd (Register r c)) t1 = Some c1 \<and>
         components (snd (Register r c)) t2 = Some c2 \<and> t1 \<noteq> t2 \<longrightarrow>
         GetTag c1 \<noteq> GetTag c2)"
      by blast
  qed
  have ok: "fst (Register r c) = None \<longrightarrow>
      components (snd (Register r c)) = (components r)(GetTag c \<mapsto> c) \<and>
      bufferPool (snd (Register r c)) = bufferPool r \<and>
      (finite (dom (components r)) \<longrightarrow>
         card (dom (components (snd (Register r c)))) = card (dom (components r)) + 1)"
    by (auto simp: fst_Register snd_Register split: if_splits)
  have bad: "fst (Register r c) \<noteq> None \<longrightarrow> snd (Register r c) = r"
    by (auto simp: fst_Register snd_Register split: if_splits)
  have iff: "fst (Register r c) \<noteq> None \<longleftrightarrow> GetTag c = [] \<or> GetTag c \<in> dom (components r)"
    by (simp add: fst_Register)
  from fst_Register [of r c] iff ok bad inv reach show ?thesis
    by blast
qed

text \<open>
  On the registry \<open>L\<close>, \<open>F\<close>, \<open>G\<close>: a second \<open>F\<close> and an empty tag are refused
  and leave the router as it was; \<open>H\<close> is accepted and makes four entries of three.
\<close>

theorem Register_spec_witness:
  "registry_inv demo_router \<and>
   Register demo_router (recorder ''F'' None) = (Some (err_already_registered ''F''), demo_router) \<and>
   components demo_router ''F'' = Some (recorder ''F'' (Some ''write failed'')) \<and>
   Register demo_router (recorder [] None) = (Some err_empty_tag, demo_router) \<and>
   fst (Register demo_router (recorder ''H'' None)) = None \<and>
   components (snd (Register demo_router (recorder ''H'' None))) ''H'' = Some (recorder ''H'' None) \<and>
   card (dom (components demo_router)) = 3 \<and>
   card (dom (components (snd (Register demo_router (recorder ''H'' None))))) = 4 \<and>
   registry_inv (snd (Register demo_router (recorder ''H'' None)))"
proof -
  note inv = registry_inv_demo_router
  note dup = Register_spec [where r = demo_router and c = "recorder ''F'' None"
      and maxAlloc = demo_maxAlloc
      and config = "\<lparr>Config.BufferSize = 1500, Services = []\<rparr>" and cs = "[]"]
  note emp = Register_spec [where r = demo_router and c = "recorder [] None"
      and maxAlloc = demo_maxAlloc
      and config = "\<lparr>Config.BufferSize = 1500, Services = []\<rparr>" and cs = "[]"]
  note new = Register_spec [where r = demo_router and c = "recorder ''H'' None"
      and maxAlloc = demo_maxAlloc
      and config = "\<lparr>Config.BufferSize = 1500, Services = []\<rparr>" and cs = "[]"]
  have a: "Register demo_router (recorder ''F'' None) = (Some (err_already_registered ''F''), demo_router)"
  proof -
    from dup [THEN conjunct1]
    have e: "fst (Register demo_router (recorder ''F'' None)) = Some (err_already_registered ''F'')"
      by (simp add: components_demo_router)
    with dup [THEN conjunct2, THEN conjunct2, THEN conjunct2, THEN conjunct1]
    have "snd (Register demo_router (recorder ''F'' None)) = demo_router"
      by simp
    with e show ?thesis
      by (simp add: prod_eq_iff)
  qed
  have b: "Register demo_router (recorder [] None) = (Some err_empty_tag, demo_router)"
  proof -
    from emp [THEN conjunct1]
    have e: "fst (Register demo_router (recorder [] None)) = Some err_empty_tag"
      by simp
    with emp [THEN conjunct2, THEN conjunct2, THEN conjunct2, THEN conjunct1]
    have "snd (Register demo_router (recorder [] None)) = demo_router"
      by simp
    with e show ?thesis
      by (simp add: prod_eq_iff)
  qed
  have c: "fst (Register demo_router (recorder ''H'' None)) = None"
    using new [THEN conjunct1] by (simp add: components_demo_router)
  note ok = new [THEN conjunct2, THEN conjunct2, THEN conjunct1, THEN mp, OF c]
  have d: "components (snd (Register demo_router (recorder ''H'' None))) ''H'' = Some (recorder ''H'' None)"
    using ok [THEN conjunct1] by simp
  have e: "card (dom (components (snd (Register demo_router (recorder ''H'' None))))) = 4"
  proof -
    have "finite (dom (components demo_router))"
      using inv by (simp add: registry_inv_def)
    with ok [THEN conjunct2, THEN conjunct2] show ?thesis
      by (simp add: card_demo_router)
  qed
  have f: "registry_inv (snd (Register demo_router (recorder ''H'' None)))"
    using new [THEN conjunct2, THEN conjunct2, THEN conjunct2, THEN conjunct2, THEN conjunct1,
        THEN mp, OF inv]
    by (rule conjunct1)
  from inv a b c d e f show ?thesis
    by (simp add: components_demo_router card_demo_router)
qed

section \<open>The buffers that the pool returns\<close>




section \<open>Starting stops at the first failure\<close>

text \<open>
  Claim C5. For every registry: when the components that the loop of \<^verbatim>\<open>StartAll\<close>
  visits first (\<open>pre\<close>) have started and \<^verbatim>\<open>Start\<close> of the next one (\<open>tag\<close>) returns an
  error, \<^verbatim>\<open>StartAll\<close> returns at once. Its error names that component and wraps the
  error of \<^verbatim>\<open>Start\<close>; the calls of \<^verbatim>\<open>Start\<close> are those made before plus the failing
  one, so no component that the loop had not reached yet (\<open>post\<close>) is started; and
  \<^verbatim>\<open>main\<close>, on the registry it has built, ends the process with that error.
\<close>

theorem StartAll_fails_fast:
  assumes "StartAll r pre w = (None, tr1, w1)"
    and "components r tag = Some c"
    and "Start c w1 = (Some err, w2)"
  shows "StartAll r (pre @ tag # post) w =
           (Some (err_start_failed tag err),
            tr1 @ [EvLog (log_starting tag), EvStart tag], w2) \<and>
         started (fst (snd (StartAll r (pre @ tag # post) w))) = started tr1 @ [tag] \<and>
         (distinct (pre @ tag # post) \<longrightarrow>
            (\<forall>t \<in> set post. t \<notin> set (started (fst (snd (StartAll r (pre @ tag # post) w)))))) \<and>
         (r = snd (main_loop NL NF config (Services config) (NewRouter maxAlloc config)) \<longrightarrow>
            fst (main maxAlloc NL NF config (pre @ tag # post) w) =
              Fatal (fatal_start_failed (err_start_failed tag err)))"
proof -
  note run = StartAll_fails_at [OF assms, of post]
  have st: "started (fst (snd (StartAll r (pre @ tag # post) w))) = started tr1 @ [tag]"
    by (simp add: run started_append)
  have sub: "set (started tr1) \<subseteq> set pre"
    using assms(1) by (rule started_pre_subset)
  have rest: "distinct (pre @ tag # post) \<longrightarrow>
            (\<forall>t \<in> set post. t \<notin> set (started (fst (snd (StartAll r (pre @ tag # post) w)))))"
    unfolding st using sub by auto
  have fatal: "r = snd (main_loop NL NF config (Services config) (NewRouter maxAlloc config)) \<longrightarrow>
            fst (main maxAlloc NL NF config (pre @ tag # post) w) =
              Fatal (fatal_start_failed (err_start_failed tag err))"
    using run by (auto simp: fst_main)
  from run st rest fatal show ?thesis
    by blast
qed

text \<open>
  The run of \<^verbatim>\<open>main\<close> on \<open>demo_config\<close>, visiting \<open>L\<close>, \<open>F\<close>, \<open>G\<close> in this order:
  \<open>F\<close> has no upstream address and fails to start, \<open>G\<close> is never started, the
  process ends.
\<close>

theorem StartAll_fails_fast_witness:
  "StartAll demo_main_router [''L''] [] =
     (None, [EvLog (log_starting ''L''), EvStart ''L''], [''Start L'']) \<and>
   components demo_main_router ''F'' = Some (recorder ''F'' (Some ''no upstream'')) \<and>
   Start (recorder ''F'' (Some ''no upstream'')) [''Start L''] =
     (Some ''no upstream'', [''Start L'', ''Start F'']) \<and>
   StartAll demo_main_router [''L'', ''F'', ''G''] [] =
     (Some (err_start_failed ''F'' ''no upstream''),
      [EvLog (log_starting ''L''), EvStart ''L'', EvLog (log_starting ''F''), EvStart ''F''],
      [''Start L'', ''Start F'']) \<and>
   ''G'' \<notin> set (started (fst (snd (StartAll demo_main_router [''L'', ''F'', ''G''] [])))) \<and>
   fst (main demo_maxAlloc demo_listen demo_forward demo_config [''L'', ''F'', ''G''] []) =
     Fatal (fatal_start_failed (err_start_failed ''F'' ''no upstream''))"
proof -
  have h2: "components demo_main_router ''F'' = Some (recorder ''F'' (Some ''no upstream''))"
    by (simp add: components_demo_main_router)
  have h3: "Start (recorder ''F'' (Some ''no upstream'')) [''Start L''] =
     (Some ''no upstream'', [''Start L'', ''Start F''])"
    by simp
  note th = StartAll_fails_fast [OF StartAll_demo_pre h2 h3, where post = "[''G'']"
      and NL = demo_listen and NF = demo_forward and config = demo_config
      and maxAlloc = demo_maxAlloc]
  have a: "StartAll demo_main_router [''L'', ''F'', ''G''] [] =
     (Some (err_start_failed ''F'' ''no upstream''),
      [EvLog (log_starting ''L''), EvStart ''L'', EvLog (log_starting ''F''), EvStart ''F''],
      [''Start L'', ''Start F''])"
    using th [THEN conjunct1] by simp
  have b: "''G'' \<notin> set (started (fst (snd (StartAll demo_main_router [''L'', ''F'', ''G''] []))))"
    using th [THEN conjunct2, THEN conjunct2, THEN conjunct1] by simp
  have c: "fst (main demo_maxAlloc demo_listen demo_forward demo_config [''L'', ''F'', ''G''] []) =
     Fatal (fatal_start_failed (err_start_failed ''F'' ''no upstream''))"
    using th [THEN conjunct2, THEN conjunct2, THEN conjunct2] by (simp add: demo_main_router_def)
  from StartAll_demo_pre h2 h3 a b c show ?thesis
    by simp
qed

section \<open>Stopping every component\<close>



section \<open>The buffer size of a component\<close>

text \<open>
  Claim C7. For every service of the configuration, the configuration with which its
  component is constructed has the router-wide buffer size when the buffer size of the
  service is at most 0, and the buffer size of the service otherwise; no other field is
  changed. The loop of \<^verbatim>\<open>main\<close> calls the constructor of a \<open>listen\<close> or \<open>forward\<close>
  service with this effective configuration and hands the component that the
  constructor returns to \<^verbatim>\<open>Register\<close>. So the configurations handed to the
  constructors are the effective configurations of the services of a known type, in
  the order of the list; every component of the registry that \<^verbatim>\<open>main\<close> builds is the
  component constructed from the effective configuration of one of the services; and
  when \<^verbatim>\<open>Register\<close> accepts the component of a service, that component is the one
  under its tag in the registry that \<^verbatim>\<open>main\<close> starts.
\<close>

theorem component_buffer_size_default:
  "ComponentConfig.BufferSize (effective_config config cfg) =
     (if ComponentConfig.BufferSize cfg \<le> 0 then Config.BufferSize config
      else ComponentConfig.BufferSize cfg) \<and>
   effective_config config cfg =
     cfg\<lparr>ComponentConfig.BufferSize :=
           (if ComponentConfig.BufferSize cfg \<le> 0 then Config.BufferSize config
            else ComponentConfig.BufferSize cfg)\<rparr> \<and>
   constructed (fst (main_loop NL NF config services router)) =
     map (effective_config config) (filter known_type services) \<and>
   constructed (fst (snd (main maxAlloc NL NF config order w))) =
     map (effective_config config) (filter known_type (Services config)) \<and>
   (Type cfg = ''listen'' \<longrightarrow>
      main_loop NL NF config (cfg # services) router =
        (EvNewListenComponent (effective_config config cfg) #
         EvRegister (GetTag (NL (effective_config config cfg))) #
           (case fst (Register router (NL (effective_config config cfg))) of
              None \<Rightarrow> []
            | Some err \<Rightarrow>
                [EvLog (log_register_failed (Tag (effective_config config cfg)) err)]) @
           fst (main_loop NL NF config services
                  (snd (Register router (NL (effective_config config cfg))))),
         snd (main_loop NL NF config services
                (snd (Register router (NL (effective_config config cfg))))))) \<and>
   (Type cfg \<noteq> ''listen'' \<and> Type cfg = ''forward'' \<longrightarrow>
      main_loop NL NF config (cfg # services) router =
        (EvNewForwardComponent (effective_config config cfg) #
         EvRegister (GetTag (NF (effective_config config cfg))) #
           (case fst (Register router (NF (effective_config config cfg))) of
              None \<Rightarrow> []
            | Some err \<Rightarrow>
                [EvLog (log_register_failed (Tag (effective_config config cfg)) err)]) @
           fst (main_loop NL NF config services
                  (snd (Register router (NF (effective_config config cfg))))),
         snd (main_loop NL NF config services
                (snd (Register router (NF (effective_config config cfg))))))) \<and>
   (\<forall>t c. components (fst (snd (snd (main maxAlloc NL NF config order w)))) t = Some c \<longrightarrow>
      (\<exists>s \<in> set (Services config).
         Type s = ''listen'' \<and> c = NL (effective_config config s) \<or>
         Type s \<noteq> ''listen'' \<and> Type s = ''forward'' \<and> c = NF (effective_config config s))) \<and>
   (\<forall>pre post.
      Services config = pre @ cfg # post \<and> Type cfg = ''listen'' \<and>
      fst (Register (snd (main_loop NL NF config pre (NewRouter maxAlloc config)))
             (NL (effective_config config cfg))) = None \<longrightarrow>
      components (fst (snd (snd (main maxAlloc NL NF config order w))))
          (GetTag (NL (effective_config config cfg))) =
        Some (NL (effective_config config cfg))) \<and>
   (\<forall>pre post.
      Services config = pre @ cfg # post \<and> Type cfg \<noteq> ''listen'' \<and> Type cfg = ''forward'' \<and>
      fst (Register (snd (main_loop NL NF config pre (NewRouter maxAlloc config)))
             (NF (effective_config config cfg))) = None \<longrightarrow>
      components (fst (snd (snd (main maxAlloc NL NF config order w))))
          (GetTag (NF (effective_config config cfg))) =
        Some (NF (effective_config config cfg)))"
proof -
  let ?e = "effective_config config cfg"
  let ?R = "fst (snd (snd (main maxAlloc NL NF config order w)))"
  have size: "ComponentConfig.BufferSize ?e =
     (if ComponentConfig.BufferSize cfg \<le> 0 then Config.BufferSize config
      else ComponentConfig.BufferSize cfg)"
    by (simp add: effective_config_def)
  have other: "?e =
     cfg\<lparr>ComponentConfig.BufferSize :=
           (if ComponentConfig.BufferSize cfg \<le> 0 then Config.BufferSize config
            else ComponentConfig.BufferSize cfg)\<rparr>"
    by (simp add: effective_config_def)
  note cons1 = constructed_main_loop [of NL NF config services router]
  have cons2: "constructed (fst (snd (main maxAlloc NL NF config order w))) =
     map (effective_config config) (filter known_type (Services config))"
    by (simp add: constructed_main_loop trace_main constructed_append constructed_StartAll)
  have lis: "Type cfg = ''listen'' \<longrightarrow>
      main_loop NL NF config (cfg # services) router =
        (EvNewListenComponent ?e # EvRegister (GetTag (NL ?e)) #
           (case fst (Register router (NL ?e)) of
              None \<Rightarrow> []
            | Some err \<Rightarrow> [EvLog (log_register_failed (Tag ?e) err)]) @
           fst (main_loop NL NF config services (snd (Register router (NL ?e)))),
         snd (main_loop NL NF config services (snd (Register router (NL ?e)))))"
    using main_loop_Cons_Some [OF new_component_listen] by blast
  have fwd: "Type cfg \<noteq> ''listen'' \<and> Type cfg = ''forward'' \<longrightarrow>
      main_loop NL NF config (cfg # services) router =
        (EvNewForwardComponent ?e # EvRegister (GetTag (NF ?e)) #
           (case fst (Register router (NF ?e)) of
              None \<Rightarrow> []
            | Some err \<Rightarrow> [EvLog (log_register_failed (Tag ?e) err)]) @
           fst (main_loop NL NF config services (snd (Register router (NF ?e)))),
         snd (main_loop NL NF config services (snd (Register router (NF ?e)))))"
    using main_loop_Cons_Some [OF new_component_forward] by blast
  have orig: "\<forall>t c. components ?R t = Some c \<longrightarrow>
      (\<exists>s \<in> set (Services config).
         Type s = ''listen'' \<and> c = NL (effective_config config s) \<or>
         Type s \<noteq> ''listen'' \<and> Type s = ''forward'' \<and> c = NF (effective_config config s))"
  proof (intro allI impI)
    fix t c
    assume "components ?R t = Some c"
    then have "components (snd (main_loop NL NF config (Services config)
        (NewRouter maxAlloc config))) t = Some c"
      by (simp add: router_main)
    from main_loop_origin [OF this]
    show "\<exists>s \<in> set (Services config).
         Type s = ''listen'' \<and> c = NL (effective_config config s) \<or>
         Type s \<noteq> ''listen'' \<and> Type s = ''forward'' \<and> c = NF (effective_config config s)"
      by (simp add: NewRouter_def)
  qed
  have regl: "\<forall>pre post.
      Services config = pre @ cfg # post \<and> Type cfg = ''listen'' \<and>
      fst (Register (snd (main_loop NL NF config pre (NewRouter maxAlloc config))) (NL ?e)) = None
      \<longrightarrow> components ?R (GetTag (NL ?e)) = Some (NL ?e)"
  proof (intro allI impI, elim conjE)
    fix pre post
    assume sv: "Services config = pre @ cfg # post" and ty: "Type cfg = ''listen''"
      and ok: "fst (Register (snd (main_loop NL NF config pre (NewRouter maxAlloc config)))
        (NL ?e)) = None"
    from main_loop_registered [OF new_component_listen [OF ty] ok, of post]
    show "components ?R (GetTag (NL ?e)) = Some (NL ?e)"
      by (simp add: router_main sv)
  qed
  have regf: "\<forall>pre post.
      Services config = pre @ cfg # post \<and> Type cfg \<noteq> ''listen'' \<and> Type cfg = ''forward'' \<and>
      fst (Register (snd (main_loop NL NF config pre (NewRouter maxAlloc config))) (NF ?e)) = None
      \<longrightarrow> components ?R (GetTag (NF ?e)) = Some (NF ?e)"
  proof (intro allI impI, elim conjE)
    fix pre post
    assume sv: "Services config = pre @ cfg # post" and nl: "Type cfg \<noteq> ''listen''"
      and ty: "Type cfg = ''forward''"
      and ok: "fst (Register (snd (main_loop NL NF config pre (NewRouter maxAlloc config)))
        (NF ?e)) = None"
    from main_loop_registered [OF new_component_forward [OF nl ty] ok, of post]
    show "components ?R (GetTag (NF ?e)) = Some (NF ?e)"
      by (simp add: router_main sv)
  qed
  from size other cons1 cons2 lis fwd orig regl regf show ?thesis
    by (intro conjI)
qed


text \<open>
  On \<open>demo_config\<close> (default 1500): \<open>L\<close> with size 0 and \<open>G\<close> with size -1 are
  constructed with 1500, \<open>F\<close> keeps its 2048. The listener registered under \<open>L\<close> is
  the one constructed with 1500 bytes, which starts; constructed with the 0 bytes of
  its service it would not.
\<close>

theorem component_buffer_size_default_witness:
  "Services demo_config =
     [] @ service ''listen'' ''L'' 0 #
       [service ''forward'' ''F'' 2048, service ''bogus'' ''B'' 0, service ''listen'' ''G'' (- 1)] \<and>
   Type (service ''listen'' ''L'' 0) = ''listen'' \<and>
   fst (Register
          (snd (main_loop demo_listen demo_forward demo_config []
                  (NewRouter demo_maxAlloc demo_config)))
          (demo_listen (effective_config demo_config (service ''listen'' ''L'' 0)))) = None \<and>
   effective_config demo_config (service ''listen'' ''L'' 0) = service ''listen'' ''L'' 1500 \<and>
   components
       (fst (snd (snd (main demo_maxAlloc demo_listen demo_forward demo_config
                         [''L'', ''F'', ''G''] []))))
       ''L'' =
     Some (demo_listen (service ''listen'' ''L'' 1500)) \<and>
   Start (demo_listen (service ''listen'' ''L'' 1500)) [] = (None, [''Start L'']) \<and>
   Start (demo_listen (service ''listen'' ''L'' 0)) [] = (Some ''no buffer'', [''Start L'']) \<and>
   constructed
       (fst (snd (main demo_maxAlloc demo_listen demo_forward demo_config [''L'', ''F'', ''G''] []))) =
     [service ''listen'' ''L'' 1500, service ''forward'' ''F'' 2048, service ''listen'' ''G'' 1500]"
proof -
  note th = component_buffer_size_default
    [where config = demo_config and cfg = "service ''listen'' ''L'' 0" and NL = demo_listen
      and NF = demo_forward and maxAlloc = demo_maxAlloc and order = "[''L'', ''F'', ''G'']"
      and w = "[]" and services = "[]" and router = "NewRouter demo_maxAlloc demo_config"]
  have sv: "Services demo_config =
     [] @ service ''listen'' ''L'' 0 #
       [service ''forward'' ''F'' 2048, service ''bogus'' ''B'' 0, service ''listen'' ''G'' (- 1)]"
    by (simp add: demo_config_def)
  have ty: "Type (service ''listen'' ''L'' 0) = ''listen''"
    by (simp add: Type_service)
  have eff: "effective_config demo_config (service ''listen'' ''L'' 0) = service ''listen'' ''L'' 1500"
    by (simp add: effective_config_service)
  have ok: "fst (Register
          (snd (main_loop demo_listen demo_forward demo_config []
                  (NewRouter demo_maxAlloc demo_config)))
          (demo_listen (effective_config demo_config (service ''listen'' ''L'' 0)))) = None"
    by (simp add: fst_Register GetTag_demo_listen Tag_service eff NewRouter_def)
  from th [THEN conjunct2, THEN conjunct2, THEN conjunct2, THEN conjunct2, THEN conjunct2,
      THEN conjunct2, THEN conjunct2, THEN conjunct1, THEN spec, THEN spec, THEN mp,
      OF conjI, OF sv conjI, OF ty ok]
  have reg: "components
       (fst (snd (snd (main demo_maxAlloc demo_listen demo_forward demo_config
                         [''L'', ''F'', ''G''] []))))
       ''L'' =
     Some (demo_listen (service ''listen'' ''L'' 1500))"
    by (simp add: eff GetTag_demo_listen Tag_service)
  have s1: "Start (demo_listen (service ''listen'' ''L'' 1500)) [] = (None, [''Start L''])"
    by (simp add: demo_listen_def service_def)
  have s0: "Start (demo_listen (service ''listen'' ''L'' 0)) [] = (Some ''no buffer'', [''Start L''])"
    by (simp add: demo_listen_def service_def)
  from th [THEN conjunct2, THEN conjunct2, THEN conjunct2, THEN conjunct1]
  have cons: "constructed
       (fst (snd (main demo_maxAlloc demo_listen demo_forward demo_config [''L'', ''F'', ''G''] []))) =
     [service ''listen'' ''L'' 1500, service ''forward'' ''F'' 2048, service ''listen'' ''G'' 1500]"
    by (simp add: sv known_type_def Type_service effective_config_service)
  from sv ty ok eff reg s1 s0 cons show ?thesis
    by (intro conjI)
qed

section \<open>A service of unknown type\<close>





section \<open>The size of a new buffer\<close>

text \<open>
  Claim C10. \<^verbatim>\<open>New\<close> of the pool allocates with the top-level buffer size and
  nothing else: on a new router \<^verbatim>\<open>GetBuffer\<close> returns a zeroed buffer of exactly that
  size, with no lower bound, and panics exactly when that size is negative or beyond
  the allocation limit of the runtime, so no buffer of another size is ever allocated.
  With a top-level size of 0, which is also what an absent \<^verbatim>\<open>buffer_size\<close> is parsed
  to, the buffer has length 0. The services and their buffer sizes play no part: the
  new router does not depend on them, the loop of \<^verbatim>\<open>main\<close> leaves the pool as
  \<^verbatim>\<open>NewRouter\<close> made it, and no sequence of \<^verbatim>\<open>GetBuffer\<close> and \<^verbatim>\<open>PutBuffer\<close> calls
  changes what \<^verbatim>\<open>New\<close> allocates.
\<close>

theorem pool_allocates_router_wide_size:
  "New (bufferPool (NewRouter maxAlloc config :: 'w Router)) () =
     make_bytes maxAlloc (Config.BufferSize config) \<and>
   GetBuffer (NewRouter maxAlloc config :: 'w Router) choice =
     (if Config.BufferSize config < 0 \<or> int maxAlloc < Config.BufferSize config
      then Inl PanicMakesliceLenOutOfRange
      else Inr (replicate (nat (Config.BufferSize config)) 0, NewRouter maxAlloc config)) \<and>
   (case GetBuffer (NewRouter maxAlloc config :: 'w Router) choice of
      Inl e \<Rightarrow> Config.BufferSize config < 0 \<or> int maxAlloc < Config.BufferSize config
    | Inr (buf, r) \<Rightarrow> int (length buf) = Config.BufferSize config) \<and>
   GetBuffer (NewRouter maxAlloc (config\<lparr>Config.BufferSize := 0\<rparr>) :: 'w Router) choice =
     Inr ([], NewRouter maxAlloc (config\<lparr>Config.BufferSize := 0\<rparr>)) \<and>
   (NewRouter maxAlloc (config\<lparr>Services := services\<rparr>) :: 'w Router) =
     NewRouter maxAlloc config \<and>
   bufferPool (fst (snd (snd (main maxAlloc NL NF config order w)))) =
     bufferPool (NewRouter maxAlloc config :: 'w Router) \<and>
   (\<forall>r. snd (run_pool (NewRouter maxAlloc config :: 'w Router) calls) = Inr r \<longrightarrow>
      New (bufferPool r) () = make_bytes maxAlloc (Config.BufferSize config))"
proof -
  have new: "New (bufferPool (NewRouter maxAlloc config :: 'w Router)) () =
     make_bytes maxAlloc (Config.BufferSize config)"
    by (simp add: NewRouter_def)
  note get = GetBuffer_NewRouter [of maxAlloc config choice]
  have len: "case GetBuffer (NewRouter maxAlloc config :: 'w Router) choice of
      Inl e \<Rightarrow> Config.BufferSize config < 0 \<or> int maxAlloc < Config.BufferSize config
    | Inr (buf, r) \<Rightarrow> int (length buf) = Config.BufferSize config"
    by (simp add: GetBuffer_NewRouter)
  have zero: "GetBuffer (NewRouter maxAlloc (config\<lparr>Config.BufferSize := 0\<rparr>) :: 'w Router)
      choice = Inr ([], NewRouter maxAlloc (config\<lparr>Config.BufferSize := 0\<rparr>))"
    by (simp add: GetBuffer_NewRouter)
  have svc: "(NewRouter maxAlloc (config\<lparr>Services := services\<rparr>) :: 'w Router) =
     NewRouter maxAlloc config"
    by (simp add: NewRouter_def)
  have mn: "bufferPool (fst (snd (snd (main maxAlloc NL NF config order w)))) =
     bufferPool (NewRouter maxAlloc config :: 'w Router)"
    by (simp add: router_main bufferPool_main_loop NewRouter_def)
  have keep: "\<forall>r. snd (run_pool (NewRouter maxAlloc config :: 'w Router) calls) = Inr r \<longrightarrow>
      New (bufferPool r) () = make_bytes maxAlloc (Config.BufferSize config)"
  proof -
    have "pool_inv maxAlloc (Config.BufferSize config) {} (NewRouter maxAlloc config :: 'w Router)"
      by (rule pool_inv_NewRouter)
    from run_pool_buffers [OF this, of calls] show ?thesis
      by (auto simp: pool_inv_def)
  qed
  from new get len zero svc mn keep show ?thesis
    by blast
qed

text \<open>
  With a top-level size of 0 and a service that asks for 2048 bytes, the buffer of the
  pool is empty; after a run of the pool with a top-level size of 4, \<^verbatim>\<open>New\<close> still
  allocates four bytes.
\<close>

theorem pool_allocates_router_wide_size_witness:
  "GetBuffer (NewRouter demo_maxAlloc
       \<lparr>Config.BufferSize = 0, Services = [service ''listen'' ''L'' 2048]\<rparr> :: unit Router) None =
     Inr ([], NewRouter demo_maxAlloc
       \<lparr>Config.BufferSize = 0, Services = [service ''listen'' ''L'' 2048]\<rparr>) \<and>
   snd (run_pool (NewRouter demo_maxAlloc demo_pool_config :: unit Router) demo_pool_calls) =
     Inr (NewRouter demo_maxAlloc demo_pool_config) \<and>
   New (bufferPool (NewRouter demo_maxAlloc demo_pool_config :: unit Router)) () =
     Inr [0, 0, 0, 0]"
proof -
  have a: "GetBuffer (NewRouter demo_maxAlloc
       \<lparr>Config.BufferSize = 0, Services = [service ''listen'' ''L'' 2048]\<rparr> :: unit Router) None =
     Inr ([], NewRouter demo_maxAlloc
       \<lparr>Config.BufferSize = 0, Services = [service ''listen'' ''L'' 2048]\<rparr>)"
    using pool_allocates_router_wide_size
      [where maxAlloc = demo_maxAlloc
        and config = "\<lparr>Config.BufferSize = 0, Services = [service ''listen'' ''L'' 2048]\<rparr>"
        and choice = None and 'w = unit, THEN conjunct2, THEN conjunct1]
    by simp
  have run: "snd (run_pool (NewRouter demo_maxAlloc demo_pool_config :: unit Router)
      demo_pool_calls) = Inr (NewRouter demo_maxAlloc demo_pool_config)"
    by (simp add: run_demo_pool)
  from pool_allocates_router_wide_size
      [where maxAlloc = demo_maxAlloc and config = demo_pool_config and calls = demo_pool_calls
        and 'w = unit, THEN conjunct2, THEN conjunct2, THEN conjunct2, THEN conjunct2,
        THEN conjunct2, THEN conjunct2, THEN spec, THEN mp, OF run]
  have "New (bufferPool (NewRouter demo_maxAlloc demo_pool_config :: unit Router)) () =
     Inr [0, 0, 0, 0]"
    by (simp add: demo_pool_config_def make_bytes_demo_4)
  with a run show ?thesis
    by simp
qed

end
